theory Spec2Isabelle
  imports Complex_Main
begin

section \<open>Values of the JavaScript program\<close>

text \<open>
  Values that reach the component from JSON responses. A JSON number is kept as a real;
  an object is the list of its own properties as parsed.
\<close>

datatype jsval =
    JUndefined
  | JNull
  | JBool bool
  | JNum real
  | JStr string
  | JArr "jsval list"
  | JObj "(string \<times> jsval) list"

text \<open>Exceptions and promise rejections the component can see.\<close>

datatype exn =
    TypeError
  | RangeError
  | AxiosError string
  | GeolocationPositionError nat
  | Error string

text \<open>
  Property read \<open>v.k\<close>: a TypeError on \<open>null\<close> and \<open>undefined\<close>, the own property of an
  object, and \<open>undefined\<close> where the property is missing. None of the names read by
  the component (\<open>lat\<close>, \<open>lon\<close>, \<open>alt\<close>, \<open>name\<close>, \<open>timestamp\<close>, \<open>start_time\<close>,
  \<open>end_time\<close>) is inherited by a string, number, boolean or array.
\<close>

fun get_prop :: "jsval \<Rightarrow> string \<Rightarrow> exn + jsval" where
  "get_prop JUndefined k = Inl TypeError"
| "get_prop JNull k = Inl TypeError"
| "get_prop (JObj ps) k = (case map_of ps k of None \<Rightarrow> Inr JUndefined | Some v \<Rightarrow> Inr v)"
| "get_prop v k = Inr JUndefined"

text \<open>
  A \<open>Date\<close> object is its time value: milliseconds since the epoch, or \<open>None\<close> for
  the NaN time value of an Invalid Date. The result of an arithmetic expression that
  may be NaN is an option in the same way.
\<close>

type_synonym jsdate = "int option"

text \<open>The settled state of the promise returned by \<open>axios.get\<close>: the response's \<open>data\<close>, or a rejection.\<close>

datatype outcome = Resolved jsval | Rejected exn

text \<open>
  The two requests of the component, without the base URL:
  \<open>GET /api/passes\<close> with its \<open>lat\<close> and \<open>lon\<close> parameters, and \<open>GET /api/location/ISS\<close>.
\<close>

datatype request = GetPasses real real | GetLocationISS

section \<open>State of the component\<close>

record coords =
  lat :: real
  lng :: real

record satellite =
  sat_lat :: jsval
  sat_lng :: jsval
  sat_alt :: jsval
  sat_name :: jsval
  sat_timestamp :: jsdate

datatype lifecycle = Created | Mounted | Torn_down

text \<open>
  The first five fields are the \<open>useState\<close> cells of \<open>App\<close> (lines 12 to 16). The
  others are what the component has handed to its environment: the lines written with
  \<open>console.error\<close>, whether it is mounted, whether a \<open>getCurrentPosition\<close> callback is
  outstanding, the interval timers that are registered and not cleared, the
  \<open>intervalId\<close> held by the cleanup function of the poller effect, the next timer id,
  and the requests whose promises have not settled.
\<close>

record app =
  userLocation :: "coords option"
  satelliteLocation :: "satellite option"
  passes :: jsval
  loading :: bool
  error :: "string option"
  console :: "(string \<times> exn) list"
  lifecycle :: lifecycle
  geoPending :: bool
  timers :: "nat list"
  cleanup :: "nat option"
  nextTimer :: nat
  inflight :: "request list"

definition App_init :: app where
  "App_init =
     \<lparr> userLocation = None, satelliteLocation = None, passes = JArr [], loading = True,
       error = None, console = [], lifecycle = Created, geoPending = False, timers = [],
       cleanup = None, nextTimer = 0, inflight = [] \<rparr>"

section \<open>Fetching the passes (lines 61 to 77)\<close>

definition fetchPasses_catch :: "exn \<Rightarrow> app \<Rightarrow> app" where
  "fetchPasses_catch err st =
     st\<lparr> console := console st @ [(''Error fetching passes:'', err)],
         error := Some ''Failed to fetch satellite passes. Please try again later.'',
         loading := False \<rparr>"

text \<open>
  The argument of \<open>axios.get\<close>: reading \<open>userLocation.lat\<close> throws a TypeError when
  \<open>userLocation\<close> is \<open>null\<close>.
\<close>

definition fetchPasses_request :: "app \<Rightarrow> exn + request" where
  "fetchPasses_request st =
     (case userLocation st of
        None \<Rightarrow> Inl TypeError
      | Some loc \<Rightarrow> Inr (GetPasses (lat loc) (lng loc)))"

text \<open>The function up to its \<open>await\<close>: the request is in flight when it suspends.\<close>

definition fetchPasses_call :: "app \<Rightarrow> app" where
  "fetchPasses_call st =
     (let st1 = st\<lparr>loading := True\<rparr> in
      case fetchPasses_request st1 of
        Inl err \<Rightarrow> fetchPasses_catch err st1
      | Inr req \<Rightarrow> st1\<lparr>inflight := inflight st1 @ [req]\<rparr>)"

text \<open>The function from its \<open>await\<close> on, once the promise has settled.\<close>

definition fetchPasses_resume :: "outcome \<Rightarrow> app \<Rightarrow> app" where
  "fetchPasses_resume out st =
     (case out of
        Resolved data \<Rightarrow> st\<lparr>passes := data, loading := False\<rparr>
      | Rejected err \<Rightarrow> fetchPasses_catch err st)"

text \<open>
  One whole invocation with nothing else running in between: \<open>axios_get\<close> gives the
  settled promise of each request.
\<close>

definition fetchPasses :: "(request \<Rightarrow> outcome) \<Rightarrow> app \<Rightarrow> app" where
  "fetchPasses axios_get st =
     (let st1 = st\<lparr>loading := True\<rparr> in
      case fetchPasses_request st1 of
        Inl err \<Rightarrow> fetchPasses_catch err st1
      | Inr req \<Rightarrow> fetchPasses_resume (axios_get req) st1)"

section \<open>Fetching the satellite position (lines 79 to 92)\<close>

text \<open>
  The object literal passed to \<open>setSatelliteLocation\<close>. The \<open>Date\<close> constructor is a
  parameter, \<open>newDate\<close>; it does not throw on a value that came from JSON.
\<close>

definition satellite_of :: "(jsval \<Rightarrow> jsdate) \<Rightarrow> jsval \<Rightarrow> exn + satellite" where
  "satellite_of newDate data =
     (case get_prop data ''lat'' of Inl e \<Rightarrow> Inl e | Inr la \<Rightarrow>
     (case get_prop data ''lon'' of Inl e \<Rightarrow> Inl e | Inr lo \<Rightarrow>
     (case get_prop data ''alt'' of Inl e \<Rightarrow> Inl e | Inr al \<Rightarrow>
     (case get_prop data ''name'' of Inl e \<Rightarrow> Inl e | Inr nm \<Rightarrow>
     (case get_prop data ''timestamp'' of Inl e \<Rightarrow> Inl e | Inr ts \<Rightarrow>
        Inr \<lparr> sat_lat = la, sat_lng = lo, sat_alt = al, sat_name = nm,
              sat_timestamp = newDate ts \<rparr>)))))"

definition fetchSatelliteLocation_catch :: "exn \<Rightarrow> app \<Rightarrow> app" where
  "fetchSatelliteLocation_catch err st =
     st\<lparr> console := console st @ [(''Error fetching satellite location:'', err)] \<rparr>"

definition fetchSatelliteLocation_call :: "app \<Rightarrow> app" where
  "fetchSatelliteLocation_call st = st\<lparr>inflight := inflight st @ [GetLocationISS]\<rparr>"

definition fetchSatelliteLocation_resume :: "(jsval \<Rightarrow> jsdate) \<Rightarrow> outcome \<Rightarrow> app \<Rightarrow> app" where
  "fetchSatelliteLocation_resume newDate out st =
     (case out of
        Resolved data \<Rightarrow>
          (case satellite_of newDate data of
             Inl err \<Rightarrow> fetchSatelliteLocation_catch err st
           | Inr sat \<Rightarrow> st\<lparr>satelliteLocation := Some sat\<rparr>)
      | Rejected err \<Rightarrow> fetchSatelliteLocation_catch err st)"

definition fetchSatelliteLocation ::
  "(jsval \<Rightarrow> jsdate) \<Rightarrow> (request \<Rightarrow> outcome) \<Rightarrow> app \<Rightarrow> app" where
  "fetchSatelliteLocation newDate axios_get st =
     fetchSatelliteLocation_resume newDate (axios_get GetLocationISS) st"

section \<open>The effects (lines 19 to 59)\<close>

definition fallback_location :: coords where
  "fallback_location = \<lparr> lat = 40.7128, lng = - 74.006 \<rparr>"

definition geolocation_success :: "real \<Rightarrow> real \<Rightarrow> app \<Rightarrow> app" where
  "geolocation_success latitude longitude st =
     st\<lparr>userLocation := Some \<lparr> lat = latitude, lng = longitude \<rparr>\<rparr>"

definition geolocation_error :: "exn \<Rightarrow> app \<Rightarrow> app" where
  "geolocation_error err st =
     st\<lparr> console := console st @ [(''Error getting location:'', err)],
         error := Some ''Failed to get your location. Please enable location access.'',
         userLocation := Some fallback_location \<rparr>"

text \<open>The effect run on mount; \<open>supported\<close> is whether \<open>navigator.geolocation\<close> exists.\<close>

definition geolocation_effect :: "bool \<Rightarrow> app \<Rightarrow> app" where
  "geolocation_effect supported st =
     (if supported then st\<lparr>geoPending := True\<rparr>
      else st\<lparr> error := Some ''Geolocation is not supported by your browser'',
               userLocation := Some fallback_location \<rparr>)"

definition passes_effect :: "app \<Rightarrow> app" where
  "passes_effect st = (case userLocation st of None \<Rightarrow> st | Some _ \<Rightarrow> fetchPasses_call st)"

text \<open>
  The poller effect registers the interval and returns the function that clears it;
  with no location it returns nothing.
\<close>

definition poller_effect :: "app \<Rightarrow> app" where
  "poller_effect st =
     (case userLocation st of
        None \<Rightarrow> st\<lparr>cleanup := None\<rparr>
      | Some _ \<Rightarrow>
          (let st1 = fetchSatelliteLocation_call st; intervalId = nextTimer st1 in
           st1\<lparr> timers := timers st1 @ [intervalId], nextTimer := intervalId + 1,
                cleanup := Some intervalId \<rparr>))"

definition poller_cleanup :: "app \<Rightarrow> app" where
  "poller_cleanup st =
     (case cleanup st of
        None \<Rightarrow> st
      | Some intervalId \<Rightarrow> st\<lparr>timers := removeAll intervalId (timers st), cleanup := None\<rparr>)"

text \<open>
  What React runs after a render in which \<open>userLocation\<close> is a new object: the passes
  effect, and the poller effect after the cleanup of its previous run.
\<close>

definition userLocation_effects :: "app \<Rightarrow> app" where
  "userLocation_effects st = poller_effect (poller_cleanup (passes_effect st))"

section \<open>Formatting (lines 95 to 110 and 222 to 232)\<close>

text \<open>
  \<open>format\<close> of date-fns is a parameter: it returns the text or throws. The \<open>try\<close> of
  each formatter turns every exception of its block into the sentinel.
\<close>

definition formatTime ::
  "(jsdate \<Rightarrow> string \<Rightarrow> exn + string) \<Rightarrow> (jsval \<Rightarrow> jsdate) \<Rightarrow> jsval \<Rightarrow> exn + string" where
  "formatTime format newDate timeString =
     (case format (newDate timeString) ''h:mm a'' of
        Inr s \<Rightarrow> Inr s
      | Inl e \<Rightarrow> Inr ''Invalid time'')"

definition formatDate ::
  "(jsdate \<Rightarrow> string \<Rightarrow> exn + string) \<Rightarrow> (jsval \<Rightarrow> jsdate) \<Rightarrow> jsval \<Rightarrow> exn + string" where
  "formatDate format newDate timeString =
     (case format (newDate timeString) ''MMM d'' of
        Inr s \<Rightarrow> Inr s
      | Inl e \<Rightarrow> Inr ''Invalid date'')"

text \<open>
  Numbers are doubles. \<open>to_double\<close> is the double nearest to a real number, a tie going
  to the even significand, for the magnitudes that occur here (below 2^54 and, when not
  zero, at least 1 / 60000, so neither overflow nor subnormal numbers arise): with \<open>e\<close>
  the binary exponent of \<open>x\<close>, the doubles around \<open>x\<close> are the multiples of 2^(e - 52).
\<close>

definition round_half_even :: "real \<Rightarrow> int" where
  "round_half_even r =
     (let f = \<lfloor>r\<rfloor> in
      if r - of_int f < 1 / 2 then f
      else if 1 / 2 < r - of_int f then f + 1
      else if even f then f else f + 1)"

definition to_double :: "real \<Rightarrow> real" where
  "to_double x =
     (if x = 0 then 0
      else (let u = 2 powr (of_int \<lfloor>log 2 \<bar>x\<bar>\<rfloor> - 52) in
            of_int (round_half_even (x / u)) * u))"

text \<open>\<open>Math.round\<close> on a finite number rounds to the nearest integer, a half upwards.\<close>

definition Math_round :: "real \<Rightarrow> int" where
  "Math_round x = \<lfloor>x + 1 / 2\<rfloor>"

text \<open>
  The subtraction of two dates is the subtraction of their time values as doubles, NaN
  when one of them is invalid. A time value is an integer of at most 8.64e15 in
  magnitude and so a double itself; the difference of two of them can exceed 2^53 and
  is then rounded, like the quotient by 60000.
\<close>

definition date_minus :: "jsdate \<Rightarrow> jsdate \<Rightarrow> real option" where
  "date_minus a b =
     (case a of None \<Rightarrow> None | Some x \<Rightarrow>
     (case b of None \<Rightarrow> None | Some y \<Rightarrow> Some (to_double (of_int x - of_int y))))"

definition pass_duration :: "(jsval \<Rightarrow> jsdate) \<Rightarrow> jsval \<Rightarrow> exn + int option" where
  "pass_duration newDate pass =
     (case get_prop pass ''end_time'' of Inl e \<Rightarrow> Inl e | Inr end_time \<Rightarrow>
     (case get_prop pass ''start_time'' of Inl e \<Rightarrow> Inl e | Inr start_time \<Rightarrow>
        Inr (map_option (\<lambda>ms. Math_round (to_double (ms / 60000)))
               (date_minus (newDate end_time) (newDate start_time)))))"

section \<open>Rendering (lines 112 to 304)\<close>

text \<open>
  What the component calls but does not define: the \<open>Date\<close> constructor, \<open>format\<close> of
  date-fns, the conversion of a value to a number that the comparison \<open>v > 0\<close> performs
  (\<open>None\<close> for NaN), and the rendering by react-leaflet and React of the satellite marker
  with the properties and children the component hands over, which gives the exception
  they throw, if any.
\<close>

record env =
  env_newDate :: "jsval \<Rightarrow> jsdate"
  env_format :: "jsdate \<Rightarrow> string \<Rightarrow> exn + string"
  env_toNumber :: "jsval \<Rightarrow> real option"
  env_marker :: "satellite \<Rightarrow> exn option"

definition shows_loading_screen :: "app \<Rightarrow> bool" where
  "shows_loading_screen st = (loading st \<or> userLocation st = None)"

text \<open>
  The message on the screen: the loading screen shows \<open>error\<close> when it is truthy (line
  118), the main screen shows no message.
\<close>

definition rendered_error :: "app \<Rightarrow> string option" where
  "rendered_error st =
     (if shows_loading_screen st
      then (case error st of None \<Rightarrow> None | Some m \<Rightarrow> if m = [] then None else Some m)
      else None)"

text \<open>
  The exception thrown while the main screen is rendered, if any. The satellite marker
  (lines 164 to 182) calls \<open>format\<close> on the timestamp, outside of any \<open>try\<close>, and is then
  rendered by the libraries.
\<close>

definition render_satellite :: "env \<Rightarrow> satellite \<Rightarrow> exn option" where
  "render_satellite env sat =
     (case env_format env (sat_timestamp sat) ''HH:mm:ss'' of
        Inl e \<Rightarrow> Some e
      | Inr s \<Rightarrow> env_marker env sat)"

text \<open>
  The callback of \<open>passes.map\<close> (lines 194 to 235) reads properties of the pass, first
  \<open>pass.start_time\<close>; the formatters and the arithmetic on what it reads do not throw.
\<close>

definition render_pass :: "jsval \<Rightarrow> exn option" where
  "render_pass pass =
     (case get_prop pass ''start_time'' of Inl e \<Rightarrow> Some e | Inr v \<Rightarrow> None)"

fun render_pass_list :: "jsval list \<Rightarrow> exn option" where
  "render_pass_list [] = None"
| "render_pass_list (pass # rest) =
     (case render_pass pass of Some e \<Rightarrow> Some e | None \<Rightarrow> render_pass_list rest)"

text \<open>The comparison \<open>v > 0\<close>.\<close>

definition js_gt_zero :: "env \<Rightarrow> jsval \<Rightarrow> bool" where
  "js_gt_zero env v = (case env_toNumber env v of None \<Rightarrow> False | Some n \<Rightarrow> 0 < n)"

text \<open>
  \<open>passes.length > 0 ? passes.map(...) : ...\<close> (line 192) on whatever the last
  response stored in \<open>passes\<close>: reading \<open>length\<close> of \<open>null\<close> or \<open>undefined\<close> throws; an
  array is mapped; a string that is not empty, and an object whose \<open>length\<close> compares
  greater than 0, have no function \<open>map\<close>, and calling it throws.
\<close>

definition render_passes :: "env \<Rightarrow> jsval \<Rightarrow> exn option" where
  "render_passes env ps =
     (case ps of
        JUndefined \<Rightarrow> Some TypeError
      | JNull \<Rightarrow> Some TypeError
      | JArr xs \<Rightarrow> render_pass_list xs
      | JStr s \<Rightarrow> (if s = [] then None else Some TypeError)
      | JObj kv \<Rightarrow>
          (case map_of kv ''length'' of
             None \<Rightarrow> None
           | Some v \<Rightarrow> if js_gt_zero env v then Some TypeError else None)
      | _ \<Rightarrow> None)"

definition render :: "env \<Rightarrow> app \<Rightarrow> exn option" where
  "render env st =
     (if shows_loading_screen st then None
      else (case (case satelliteLocation st of
                    None \<Rightarrow> None
                  | Some sat \<Rightarrow> render_satellite env sat) of
              Some e \<Rightarrow> Some e
            | None \<Rightarrow> render_passes env (passes st)))"

section \<open>The client as a transition system\<close>

text \<open>
  The events are what the browser and React do to the component: mounting it, calling
  one of the two geolocation callbacks, firing an interval timer, settling a request,
  a click on the refresh button, unmounting it. Each event is enabled only when the
  environment can produce it: a callback of \<open>getCurrentPosition\<close> runs once and only
  after the call, a timer fires only while it is registered, a request settles only
  while it is in flight, the refresh button exists only on the main screen of the
  mounted component.

  A function of the component reads the state cells as they are when it runs: the
  closure that runs is the one of the latest render.
\<close>

datatype event =
    Mount bool
  | GeoSuccess real real
  | GeoError exn
  | Tick nat
  | Settle request outcome
  | ClickRefresh
  | Unmount

text \<open>
  React unmounts the component on request and when rendering it throws (the component
  has no error boundary); the cleanup function of the poller effect runs then.
\<close>

definition unmount :: "app \<Rightarrow> app" where
  "unmount st = (poller_cleanup st)\<lparr>lifecycle := Torn_down\<rparr>"

text \<open>After the state setters of a handler, React renders the mounted component again.\<close>

definition commit :: "env \<Rightarrow> app \<Rightarrow> app" where
  "commit env st =
     (if lifecycle st = Mounted
      then (case render env st of None \<Rightarrow> st | Some e \<Rightarrow> unmount st)
      else st)"

text \<open>
  React drops the calls of the state setters of a component it has unmounted: of what
  a handler did, with \<open>st\<close> before and \<open>st'\<close> after it, the state cells are not kept.
\<close>

definition drop_setters :: "app \<Rightarrow> app \<Rightarrow> app" where
  "drop_setters st st' =
     st'\<lparr> userLocation := userLocation st, satelliteLocation := satelliteLocation st,
          passes := passes st, loading := loading st, error := error st \<rparr>"

text \<open>
  Effects run only while the component is mounted. On mount the three effects run in
  the order of the source; the passes effect and the poller effect of that first commit
  see no location and do nothing, and they run again after every render in which
  \<open>userLocation\<close> was set. Both cases are \<open>rerender\<close> after the handler that may have set
  the location: the render, the effects, and the render after what the effects set.
\<close>

definition rerender :: "env \<Rightarrow> app \<Rightarrow> app" where
  "rerender env st =
     (let st1 = commit env st in
      if lifecycle st1 = Mounted then commit env (userLocation_effects st1) else st1)"

text \<open>A handler that may set the location, and any other handler, on the state \<open>st\<close>.\<close>

definition located :: "env \<Rightarrow> (app \<Rightarrow> app) \<Rightarrow> app \<Rightarrow> app" where
  "located env handler st =
     (if lifecycle st = Torn_down then drop_setters st (handler st)
      else rerender env (handler st))"

definition handled :: "env \<Rightarrow> (app \<Rightarrow> app) \<Rightarrow> app \<Rightarrow> app" where
  "handled env handler st =
     (if lifecycle st = Torn_down then drop_setters st (handler st)
      else commit env (handler st))"

fun step :: "env \<Rightarrow> event \<Rightarrow> app \<Rightarrow> app option" where
  "step env (Mount supported) st =
     (if lifecycle st = Created
      then Some (rerender env (geolocation_effect supported (st\<lparr>lifecycle := Mounted\<rparr>)))
      else None)"
| "step env (GeoSuccess latitude longitude) st =
     (if geoPending st
      then Some (located env (geolocation_success latitude longitude) (st\<lparr>geoPending := False\<rparr>))
      else None)"
| "step env (GeoError err) st =
     (if geoPending st
      then Some (located env (geolocation_error err) (st\<lparr>geoPending := False\<rparr>))
      else None)"
| "step env (Tick intervalId) st =
     (if intervalId \<in> set (timers st) then Some (fetchSatelliteLocation_call st) else None)"
| "step env (Settle req out) st =
     (if req \<in> set (inflight st)
      then (let st1 = st\<lparr>inflight := remove1 req (inflight st)\<rparr> in
            case req of
              GetPasses la lo \<Rightarrow> Some (handled env (fetchPasses_resume out) st1)
            | GetLocationISS \<Rightarrow>
                Some (handled env (fetchSatelliteLocation_resume (env_newDate env) out) st1))
      else None)"
| "step env ClickRefresh st =
     (if lifecycle st = Mounted \<and> \<not> shows_loading_screen st
      then Some (handled env fetchPasses_call st)
      else None)"
| "step env Unmount st =
     (if lifecycle st = Mounted then Some (unmount st) else None)"

fun run :: "env \<Rightarrow> event list \<Rightarrow> app \<Rightarrow> app option" where
  "run env [] st = Some st"
| "run env (ev # evs) st =
     (case step env ev st of None \<Rightarrow> None | Some st' \<Rightarrow> run env evs st')"

text \<open>
  What a settled position request writes into \<open>satelliteLocation\<close>: nothing when the
  request was rejected or building the object threw.
\<close>

definition tick_payload :: "(jsval \<Rightarrow> jsdate) \<Rightarrow> outcome \<Rightarrow> satellite option" where
  "tick_payload newDate out =
     (case out of
        Resolved data \<Rightarrow>
          (case satellite_of newDate data of Inl e \<Rightarrow> None | Inr sat \<Rightarrow> Some sat)
      | Rejected e \<Rightarrow> None)"



fun is_passes_request :: "request \<Rightarrow> bool" where
  "is_passes_request (GetPasses la lo) = True"
| "is_passes_request GetLocationISS = False"

definition passes_in_flight :: "app \<Rightarrow> bool" where
  "passes_in_flight st = (filter is_passes_request (inflight st) \<noteq> [])"

section \<open>Values for the examples\<close>

text \<open>
  A stand-in for the \<open>Date\<close> constructor in the examples: the time values of two ISO
  strings, and an Invalid Date for everything else.
\<close>

definition sample_newDate :: "jsval \<Rightarrow> jsdate" where
  "sample_newDate v =
     (case v of
        JStr s \<Rightarrow>
          (if s = ''1970-01-01T00:00:00Z'' then Some 0
           else if s = ''1970-01-01T00:10:00Z'' then Some 600000
           else None)
      | _ \<Rightarrow> None)"

text \<open>
  A stand-in for \<open>format\<close>: it throws on an Invalid Date, as date-fns does, and knows
  the texts of ten past midnight of the first day, in UTC.
\<close>

definition sample_format :: "jsdate \<Rightarrow> string \<Rightarrow> exn + string" where
  "sample_format d pat =
     (case d of
        None \<Rightarrow> Inl RangeError
      | Some ms \<Rightarrow>
          (if ms = 600000 \<and> pat = ''h:mm a'' then Inr ''12:10 AM''
           else if ms = 600000 \<and> pat = ''MMM d'' then Inr ''Jan 1''
           else if ms = 600000 \<and> pat = ''HH:mm:ss'' then Inr ''00:10:00''
           else Inr pat))"

text \<open>A stand-in for the conversion to a number, on numbers, booleans and \<open>null\<close>.\<close>

definition sample_toNumber :: "jsval \<Rightarrow> real option" where
  "sample_toNumber v =
     (case v of
        JNum n \<Rightarrow> Some n
      | JBool b \<Rightarrow> Some (if b then 1 else 0)
      | JNull \<Rightarrow> Some 0
      | _ \<Rightarrow> None)"

text \<open>
  A stand-in for the libraries that render the marker: Leaflet refuses a coordinate
  that is not a number, React refuses an object as a child.
\<close>

definition sample_marker :: "satellite \<Rightarrow> exn option" where
  "sample_marker sat =
     (case sat_lat sat of
        JNum la \<Rightarrow>
          (case sat_lng sat of
             JNum lo \<Rightarrow>
               (case sat_name sat of
                  JObj kv \<Rightarrow> Some (Error ''Objects are not valid as a React child'')
                | _ \<Rightarrow> None)
           | _ \<Rightarrow> Some (Error ''Invalid LatLng object''))
      | _ \<Rightarrow> Some (Error ''Invalid LatLng object''))"

definition sample_env :: env where
  "sample_env =
     \<lparr> env_newDate = sample_newDate, env_format = sample_format,
       env_toNumber = sample_toNumber, env_marker = sample_marker \<rparr>"

text \<open>The state after mounting in a browser with geolocation, before the position fix.\<close>

definition sample_mounted :: app where
  "sample_mounted = App_init\<lparr>lifecycle := Mounted, geoPending := True\<rparr>"

text \<open>The state after mounting and a position fix at latitude 1, longitude 2.\<close>

definition sample_located :: app where
  "sample_located =
     \<lparr> userLocation = Some \<lparr> lat = 1, lng = 2 \<rparr>, satelliteLocation = None,
       passes = JArr [], loading = True, error = None, console = [], lifecycle = Mounted,
       geoPending = False, timers = [0], cleanup = Some 0, nextTimer = 1,
       inflight = [GetPasses 1 2, GetLocationISS] \<rparr>"

text \<open>Two positions of the satellite, the second ten minutes after the first.\<close>

definition sample_position_old :: jsval where
  "sample_position_old =
     JObj [(''lat'', JNum 5), (''lon'', JNum 15), (''alt'', JNum 421),
           (''name'', JStr ''ISS''), (''timestamp'', JStr ''1970-01-01T00:00:00Z'')]"

definition sample_position :: jsval where
  "sample_position =
     JObj [(''lat'', JNum 10), (''lon'', JNum 20), (''alt'', JNum 420),
           (''name'', JStr ''ISS''), (''timestamp'', JStr ''1970-01-01T00:10:00Z'')]"

definition sample_satellite_old :: satellite where
  "sample_satellite_old =
     \<lparr> sat_lat = JNum 5, sat_lng = JNum 15, sat_alt = JNum 421, sat_name = JStr ''ISS'',
       sat_timestamp = Some 0 \<rparr>"

definition sample_satellite :: satellite where
  "sample_satellite =
     \<lparr> sat_lat = JNum 10, sat_lng = JNum 20, sat_alt = JNum 420, sat_name = JStr ''ISS'',
       sat_timestamp = Some 600000 \<rparr>"

text \<open>What the position fetch builds from a body that is text, not an object.\<close>

definition sample_satellite_undefined :: satellite where
  "sample_satellite_undefined =
     \<lparr> sat_lat = JUndefined, sat_lng = JUndefined, sat_alt = JUndefined,
       sat_name = JUndefined, sat_timestamp = None \<rparr>"

definition sample_pass :: jsval where
  "sample_pass =
     JObj [(''start_time'', JStr ''1970-01-01T00:00:00Z''),
           (''max_time'', JStr ''1970-01-01T00:05:00Z''),
           (''end_time'', JStr ''1970-01-01T00:10:00Z''),
           (''visibility_score'', JNum 0.8)]"

text \<open>A backend for the examples: one pass for every coordinate, and the sample position.\<close>

fun sample_backend :: "request \<Rightarrow> outcome" where
  "sample_backend (GetPasses la lo) = Resolved (JArr [sample_pass])"
| "sample_backend GetLocationISS = Resolved sample_position"

text \<open>
  The sample state on the main screen, with the first position: after the passes
  response and the first position response.
\<close>

definition sample_tracking :: app where
  "sample_tracking =
     sample_located\<lparr> satelliteLocation := Some sample_satellite, passes := JArr [sample_pass],
                     loading := False, inflight := [] \<rparr>"

text \<open>The sample state unmounted while its two first requests are in flight.\<close>

definition sample_stopped :: app where
  "sample_stopped = sample_located\<lparr>lifecycle := Torn_down, timers := [], cleanup := None\<rparr>"

section \<open>Invariants of the transition system\<close>

text \<open>
  The only registered timer is the one the cleanup function of the poller effect will
  clear, and a cleanup function exists only while the component is mounted.
\<close>

definition inv_timers :: "app \<Rightarrow> bool" where
  "inv_timers st = (timers st = (case cleanup st of None \<Rightarrow> [] | Some i \<Rightarrow> [i])
     \<and> (lifecycle st = Mounted \<or> cleanup st = None))"

text \<open>
  The geolocation callback runs at most once and only before a location is set; no
  passes request is issued without a location; at most one passes request is in
  flight; and while the component is not torn down, \<open>loading\<close> tells whether the
  location or a passes response is still awaited.
\<close>

definition inv_loading :: "app \<Rightarrow> bool" where
  "inv_loading st =
     ((lifecycle st = Created \<longrightarrow> \<not> geoPending st \<and> userLocation st = None)
      \<and> (geoPending st \<longrightarrow> userLocation st = None)
      \<and> (userLocation st = None \<longrightarrow> loading st \<and> filter is_passes_request (inflight st) = [])
      \<and> length (filter is_passes_request (inflight st)) \<le> 1
      \<and> (lifecycle st \<noteq> Torn_down \<longrightarrow>
            loading st = (userLocation st = None \<or> passes_in_flight st)))"

section \<open>Auxiliary lemmas\<close>

lemmas fetch_defs = fetchPasses_catch_def fetchPasses_request_def fetchPasses_call_def
  fetchPasses_resume_def fetchPasses_def fetchSatelliteLocation_catch_def
  fetchSatelliteLocation_call_def fetchSatelliteLocation_resume_def fetchSatelliteLocation_def

lemmas effect_defs = geolocation_success_def geolocation_error_def geolocation_effect_def
  passes_effect_def poller_effect_def poller_cleanup_def userLocation_effects_def

lemmas render_defs = render_def render_satellite_def render_passes_def render_pass_def
  js_gt_zero_def shows_loading_screen_def

lemmas react_defs = unmount_def commit_def drop_setters_def rerender_def located_def handled_def

lemmas sample_defs = sample_newDate_def sample_format_def sample_toNumber_def sample_marker_def
  sample_env_def sample_mounted_def sample_located_def sample_position_old_def
  sample_position_def sample_satellite_old_def sample_satellite_def
  sample_satellite_undefined_def sample_pass_def sample_tracking_def sample_stopped_def

subsection \<open>What unmounting, rendering and the effects change\<close>

lemma unmount_fields:
  "userLocation (unmount st) = userLocation st"
  "satelliteLocation (unmount st) = satelliteLocation st"
  "passes (unmount st) = passes st"
  "loading (unmount st) = loading st"
  "error (unmount st) = error st"
  "console (unmount st) = console st"
  "geoPending (unmount st) = geoPending st"
  "inflight (unmount st) = inflight st"
  "lifecycle (unmount st) = Torn_down"
  by (simp_all add: unmount_def poller_cleanup_def split: option.splits)

lemma commit_fields:
  "userLocation (commit env st) = userLocation st"
  "satelliteLocation (commit env st) = satelliteLocation st"
  "passes (commit env st) = passes st"
  "loading (commit env st) = loading st"
  "error (commit env st) = error st"
  "console (commit env st) = console st"
  "geoPending (commit env st) = geoPending st"
  "inflight (commit env st) = inflight st"
  by (simp_all add: commit_def unmount_fields split: option.splits)


lemma commit_eq:
  "commit env st = (if lifecycle st = Mounted \<and> render env st \<noteq> None then unmount st else st)"
  by (simp add: commit_def split: option.splits)

lemma render_cells:
  assumes "userLocation a = userLocation b" and "satelliteLocation a = satelliteLocation b"
      and "passes a = passes b" and "loading a = loading b"
  shows "render env a = render env b"
  by (simp only: render_def shows_loading_screen_def assms)

lemma render_loading: "loading st \<Longrightarrow> render env st = None"
  by (simp add: render_def shows_loading_screen_def)

lemma effects_fields:
  "userLocation (userLocation_effects st) = userLocation st"
  "satelliteLocation (userLocation_effects st) = satelliteLocation st"
  "passes (userLocation_effects st) = passes st"
  "error (userLocation_effects st) = error st"
  "console (userLocation_effects st) = console st"
  "geoPending (userLocation_effects st) = geoPending st"
  "lifecycle (userLocation_effects st) = lifecycle st"
  "loading (userLocation_effects st) = (loading st \<or> userLocation st \<noteq> None)"
  "inflight (userLocation_effects st) =
     inflight st @ (case userLocation st of
                      None \<Rightarrow> []
                    | Some c \<Rightarrow> [GetPasses (lat c) (lng c), GetLocationISS])"
  by (simp_all add: fetch_defs effect_defs Let_def split: option.splits)

lemma effects_timers:
  "timers (userLocation_effects st) =
     (case cleanup st of None \<Rightarrow> timers st | Some i \<Rightarrow> removeAll i (timers st)) @
     (case userLocation st of None \<Rightarrow> [] | Some c \<Rightarrow> [nextTimer st])"
  "cleanup (userLocation_effects st) =
     (case userLocation st of None \<Rightarrow> None | Some c \<Rightarrow> Some (nextTimer st))"
  by (simp_all add: fetch_defs effect_defs Let_def split: option.splits)

lemma render_effects:
  "render env st = None \<Longrightarrow> render env (userLocation_effects st) = None"
  by (cases "userLocation st") (simp_all add: render_def shows_loading_screen_def effects_fields)

lemma rerender_eq:
  "rerender env st =
     (if lifecycle st = Mounted
      then (if render env st = None then userLocation_effects st else unmount st)
      else st)"
  by (simp add: rerender_def Let_def commit_eq unmount_fields effects_fields render_effects)

subsection \<open>The timers\<close>

lemma inv_timers_unmount: "inv_timers st \<Longrightarrow> inv_timers (unmount st)"
  by (auto simp: inv_timers_def unmount_def poller_cleanup_def split: option.splits)

lemma inv_timers_commit: "inv_timers st \<Longrightarrow> inv_timers (commit env st)"
  by (simp add: commit_eq inv_timers_unmount)

lemma inv_timers_effects:
  "inv_timers st \<Longrightarrow> lifecycle st = Mounted \<Longrightarrow> inv_timers (userLocation_effects st)"
  by (auto simp: inv_timers_def effects_timers effects_fields split: option.splits)

lemma inv_timers_rerender: "inv_timers st \<Longrightarrow> inv_timers (rerender env st)"
  by (simp add: rerender_eq inv_timers_unmount inv_timers_effects)

lemma inv_timers_same:
  assumes "inv_timers st" and "timers st' = timers st" and "cleanup st' = cleanup st"
      and "lifecycle st' = lifecycle st"
  shows "inv_timers st'"
  using assms by (simp add: inv_timers_def)

lemma inv_timers_located:
  assumes "inv_timers st" and "timers (h st) = timers st" and "cleanup (h st) = cleanup st"
      and "lifecycle (h st) = lifecycle st"
  shows "inv_timers (located env h st)"
proof -
  have a: "inv_timers (h st)" by (rule inv_timers_same[OF assms])
  then have "inv_timers (drop_setters st (h st))"
    by (rule inv_timers_same) (simp_all add: drop_setters_def)
  with a show ?thesis by (simp add: located_def inv_timers_rerender)
qed

lemma inv_timers_handled:
  assumes "inv_timers st" and "timers (h st) = timers st" and "cleanup (h st) = cleanup st"
      and "lifecycle (h st) = lifecycle st"
  shows "inv_timers (handled env h st)"
proof -
  have a: "inv_timers (h st)" by (rule inv_timers_same[OF assms])
  then have "inv_timers (drop_setters st (h st))"
    by (rule inv_timers_same) (simp_all add: drop_setters_def)
  with a show ?thesis by (simp add: handled_def inv_timers_commit)
qed

lemma resume_frame:
  "timers (fetchPasses_resume out st) = timers st"
  "cleanup (fetchPasses_resume out st) = cleanup st"
  "lifecycle (fetchPasses_resume out st) = lifecycle st"
  "geoPending (fetchPasses_resume out st) = geoPending st"
  "inflight (fetchPasses_resume out st) = inflight st"
  "timers (fetchSatelliteLocation_resume newDate out st) = timers st"
  "cleanup (fetchSatelliteLocation_resume newDate out st) = cleanup st"
  "lifecycle (fetchSatelliteLocation_resume newDate out st) = lifecycle st"
  "geoPending (fetchSatelliteLocation_resume newDate out st) = geoPending st"
  "inflight (fetchSatelliteLocation_resume newDate out st) = inflight st"
  by (simp_all add: fetch_defs split: outcome.splits sum.splits)

lemma call_frame:
  "timers (fetchPasses_call st) = timers st"
  "cleanup (fetchPasses_call st) = cleanup st"
  "lifecycle (fetchPasses_call st) = lifecycle st"
  "geoPending (fetchPasses_call st) = geoPending st"
  "timers (fetchSatelliteLocation_call st) = timers st"
  "cleanup (fetchSatelliteLocation_call st) = cleanup st"
  "lifecycle (fetchSatelliteLocation_call st) = lifecycle st"
  "geoPending (fetchSatelliteLocation_call st) = geoPending st"
  by (simp_all add: fetch_defs Let_def split: sum.splits option.splits)

lemma step_inv_timers:
  assumes "step env ev s = Some s'" and "inv_timers s"
  shows "inv_timers s'"
proof (cases ev)
  case (Mount supported)
  with assms(1) have c: "lifecycle s = Created"
    and e: "s' = rerender env (geolocation_effect supported (s\<lparr>lifecycle := Mounted\<rparr>))"
    by (simp_all split: if_splits)
  from assms(2) c have "inv_timers (geolocation_effect supported (s\<lparr>lifecycle := Mounted\<rparr>))"
    by (simp add: inv_timers_def geolocation_effect_def)
  then show ?thesis unfolding e by (rule inv_timers_rerender)
next
  case (GeoSuccess la lo)
  with assms(1) have e: "s' = located env (geolocation_success la lo) (s\<lparr>geoPending := False\<rparr>)"
    by (simp split: if_splits)
  from assms(2) have "inv_timers (s\<lparr>geoPending := False\<rparr>)" by (simp add: inv_timers_def)
  then show ?thesis unfolding e
    by (rule inv_timers_located) (simp_all add: geolocation_success_def)
next
  case (GeoError err)
  with assms(1) have e: "s' = located env (geolocation_error err) (s\<lparr>geoPending := False\<rparr>)"
    by (simp split: if_splits)
  from assms(2) have "inv_timers (s\<lparr>geoPending := False\<rparr>)" by (simp add: inv_timers_def)
  then show ?thesis unfolding e
    by (rule inv_timers_located) (simp_all add: geolocation_error_def)
next
  case (Tick i)
  with assms(1) have e: "s' = fetchSatelliteLocation_call s" by (simp split: if_splits)
  from assms(2) show ?thesis unfolding e
    by (rule inv_timers_same) (simp_all add: call_frame)
next
  case (Settle req out)
  let ?s1 = "s\<lparr>inflight := remove1 req (inflight s)\<rparr>"
  from assms(2) have i: "inv_timers ?s1" by (simp add: inv_timers_def)
  show ?thesis
  proof (cases req)
    case (GetPasses la lo)
    with Settle assms(1) have e: "s' = handled env (fetchPasses_resume out) ?s1"
      by (simp split: if_splits)
    from i show ?thesis unfolding e
      by (rule inv_timers_handled) (simp_all add: resume_frame)
  next
    case GetLocationISS
    with Settle assms(1)
    have e: "s' = handled env (fetchSatelliteLocation_resume (env_newDate env) out) ?s1"
      by (simp split: if_splits)
    from i show ?thesis unfolding e
      by (rule inv_timers_handled) (simp_all add: resume_frame)
  qed
next
  case ClickRefresh
  with assms(1) have e: "s' = handled env fetchPasses_call s" by (simp split: if_splits)
  from assms(2) show ?thesis unfolding e
    by (rule inv_timers_handled) (simp_all add: call_frame)
next
  case Unmount
  with assms(1) have e: "s' = unmount s" by (simp split: if_splits)
  from assms(2) show ?thesis unfolding e by (rule inv_timers_unmount)
qed

lemma run_inv_timers:
  "run env evs s = Some s' \<Longrightarrow> inv_timers s \<Longrightarrow> inv_timers s'"
proof (induction evs arbitrary: s)
  case Nil
  then show ?case by simp
next
  case (Cons ev evs)
  then show ?case by (auto split: option.splits dest: step_inv_timers)
qed

lemma inv_timers_init: "inv_timers App_init"
  by (simp add: inv_timers_def App_init_def)

subsection \<open>After the component is torn down\<close>

lemma drop_setters_fields:
  "userLocation (drop_setters st st') = userLocation st"
  "satelliteLocation (drop_setters st st') = satelliteLocation st"
  "passes (drop_setters st st') = passes st"
  "loading (drop_setters st st') = loading st"
  "error (drop_setters st st') = error st"
  "lifecycle (drop_setters st st') = lifecycle st'"
  "timers (drop_setters st st') = timers st'"
  "cleanup (drop_setters st st') = cleanup st'"
  "inflight (drop_setters st st') = inflight st'"
  "geoPending (drop_setters st st') = geoPending st'"
  "console (drop_setters st st') = console st'"
  by (simp_all add: drop_setters_def)

lemma step_torn_down:
  assumes "step env ev s = Some s'" and "lifecycle s = Torn_down"
  shows "lifecycle s' = Torn_down \<and> userLocation s' = userLocation s
         \<and> satelliteLocation s' = satelliteLocation s \<and> passes s' = passes s
         \<and> loading s' = loading s \<and> error s' = error s \<and> timers s' = timers s"
proof (cases ev)
  case (Settle req out)
  with assms show ?thesis
    by (cases req)
       (auto simp: handled_def drop_setters_fields resume_frame Let_def split: if_splits)
qed (use assms in \<open>auto simp: located_def handled_def drop_setters_fields call_frame
       geolocation_success_def geolocation_error_def shows_loading_screen_def
       fetchSatelliteLocation_call_def split: if_splits\<close>)

lemma run_torn_down:
  assumes "run env evs s = Some s'" and "lifecycle s = Torn_down"
  shows "lifecycle s' = Torn_down \<and> userLocation s' = userLocation s
         \<and> satelliteLocation s' = satelliteLocation s \<and> passes s' = passes s
         \<and> loading s' = loading s \<and> error s' = error s \<and> timers s' = timers s"
  using assms
proof (induction evs arbitrary: s)
  case Nil
  then show ?case by simp
next
  case (Cons ev evs)
  from Cons.prems(1) obtain s1 where a: "step env ev s = Some s1"
    and b: "run env evs s1 = Some s'"
    by (auto split: option.splits)
  from step_torn_down[OF a Cons.prems(2)] Cons.IH[OF b] show ?case by simp
qed

lemma step_stopped_requests:
  assumes "step env ev s = Some s'" and "lifecycle s = Torn_down" and "timers s = []"
  shows "count_list (inflight s') GetLocationISS \<le> count_list (inflight s) GetLocationISS"
proof (cases ev)
  case (Settle req out)
  with assms show ?thesis
    by (cases req)
       (auto simp: handled_def drop_setters_fields resume_frame Let_def split: if_splits)
qed (use assms in \<open>auto simp: located_def handled_def drop_setters_fields
       geolocation_success_def geolocation_error_def split: if_splits\<close>)

lemma run_stopped_requests:
  assumes "run env evs s = Some s'" and "lifecycle s = Torn_down" and "timers s = []"
  shows "count_list (inflight s') GetLocationISS \<le> count_list (inflight s) GetLocationISS"
  using assms
proof (induction evs arbitrary: s)
  case Nil
  then show ?case by simp
next
  case (Cons ev evs)
  from Cons.prems(1) obtain s1 where a: "step env ev s = Some s1"
    and b: "run env evs s1 = Some s'"
    by (auto split: option.splits)
  from step_torn_down[OF a Cons.prems(2)] Cons.prems(3)
  have "lifecycle s1 = Torn_down" and "timers s1 = []" by simp_all
  from Cons.IH[OF b this] step_stopped_requests[OF a Cons.prems(2,3)] show ?case by simp
qed

subsection \<open>The loading flag\<close>

lemma filter_remove1_other:
  "\<not> P x \<Longrightarrow> filter P (remove1 x xs) = filter P xs"
  by (induction xs) auto

lemma filter_remove1_single:
  "P x \<Longrightarrow> x \<in> set xs \<Longrightarrow> length (filter P xs) \<le> 1 \<Longrightarrow> filter P (remove1 x xs) = []"
proof (induction xs)
  case Nil
  then show ?case by simp
next
  case (Cons y ys)
  show ?case
  proof (cases "x = y")
    case True
    with Cons.prems show ?thesis by simp
  next
    case False
    with Cons.prems have "x \<in> set ys" by simp
    with Cons.prems(1) have "filter P ys \<noteq> []" by (auto simp: filter_empty_conv)
    with Cons.prems(3) have "\<not> P y" by (cases "filter P ys") (auto split: if_splits)
    with Cons False \<open>x \<in> set ys\<close> show ?thesis by simp
  qed
qed

lemma filter_remove1_length:
  "length (filter P (remove1 x xs)) \<le> length (filter P xs)"
  by (induction xs) auto

lemma filter_remove1_empty:
  "filter P xs = [] \<Longrightarrow> filter P (remove1 x xs) = []"
  using filter_remove1_length[of P x xs] by simp

text \<open>The invariant looks at five fields, and torn down it asks for less.\<close>

lemma inv_loading_same:
  assumes "inv_loading st"
      and "lifecycle st' = lifecycle st \<or> lifecycle st' = Torn_down"
      and "geoPending st' = geoPending st" and "userLocation st' = userLocation st"
      and "loading st' = loading st" and "inflight st' = inflight st"
  shows "inv_loading st'"
  using assms by (auto simp: inv_loading_def passes_in_flight_def)

lemma inv_loading_unmount: "inv_loading st \<Longrightarrow> inv_loading (unmount st)"
  by (rule inv_loading_same) (simp_all add: unmount_fields)

lemma inv_loading_commit: "inv_loading st \<Longrightarrow> inv_loading (commit env st)"
  by (simp add: commit_eq inv_loading_unmount)

lemma inv_loading_torn_down:
  assumes "inv_loading st" and "lifecycle st' = Torn_down"
      and "geoPending st' = geoPending st \<or> \<not> geoPending st'"
      and "userLocation st' = userLocation st" and "loading st' = loading st"
      and "inflight st' = inflight st \<or> inflight st' = remove1 x (inflight st)"
  shows "inv_loading st'"
proof -
  from assms(6) have "length (filter is_passes_request (inflight st'))
                        \<le> length (filter is_passes_request (inflight st))"
    and "filter is_passes_request (inflight st) = [] \<longrightarrow> filter is_passes_request (inflight st') = []"
    using filter_remove1_length[of is_passes_request x "inflight st"]
      filter_remove1_empty[of is_passes_request "inflight st" x]
    by auto
  with assms(1-5) show ?thesis
    by (auto simp: inv_loading_def)
qed

lemma inv_loading_rerender:
  assumes "lifecycle st = Mounted" and "geoPending st \<longrightarrow> userLocation st = None"
      and "filter is_passes_request (inflight st) = []"
      and "userLocation st = None \<longrightarrow> loading st"
  shows "inv_loading (rerender env st)"
proof (cases "render env st = None")
  case True
  with assms(1) have e: "rerender env st = userLocation_effects st" by (simp add: rerender_eq)
  from assms show ?thesis unfolding e
    by (cases "userLocation st")
       (simp_all add: inv_loading_def passes_in_flight_def effects_fields)
next
  case False
  with assms(1) have e: "rerender env st = unmount st" by (auto simp: rerender_eq)
  from assms show ?thesis unfolding e
    by (simp add: inv_loading_def unmount_fields)
qed

lemma inv_loading_located:
  assumes "inv_loading s" and "geoPending s"
      and "userLocation (h (s\<lparr>geoPending := False\<rparr>)) \<noteq> None"
      and "loading (h (s\<lparr>geoPending := False\<rparr>)) = loading s"
      and "inflight (h (s\<lparr>geoPending := False\<rparr>)) = inflight s"
      and "lifecycle (h (s\<lparr>geoPending := False\<rparr>)) = lifecycle s"
      and "\<not> geoPending (h (s\<lparr>geoPending := False\<rparr>))"
  shows "inv_loading (located env h (s\<lparr>geoPending := False\<rparr>))"
proof (cases "lifecycle s = Torn_down")
  case True
  have "inv_loading (drop_setters (s\<lparr>geoPending := False\<rparr>) (h (s\<lparr>geoPending := False\<rparr>)))"
    by (rule inv_loading_torn_down[OF assms(1), where x = undefined])
       (simp_all add: drop_setters_fields assms True)
  with True show ?thesis by (simp add: located_def)
next
  case False
  from assms(1,2) have u: "userLocation s = None" and c: "lifecycle s \<noteq> Created"
    by (auto simp: inv_loading_def)
  with assms(1) have f: "filter is_passes_request (inflight s) = []" and l: "loading s"
    by (auto simp: inv_loading_def)
  from False c have m: "lifecycle s = Mounted" by (cases "lifecycle s") simp_all
  have "inv_loading (rerender env (h (s\<lparr>geoPending := False\<rparr>)))"
    by (rule inv_loading_rerender) (simp_all add: assms m f l)
  with False show ?thesis by (simp add: located_def)
qed

lemma inv_loading_handled:
  assumes "inv_loading s1 \<Longrightarrow> lifecycle s1 \<noteq> Torn_down \<Longrightarrow> inv_loading (h s1)"
      and "inv_loading s1"
      and "inflight (h s1) = inflight s1" and "geoPending (h s1) = geoPending s1"
      and "lifecycle (h s1) = lifecycle s1"
  shows "inv_loading (handled env h s1)"
proof (cases "lifecycle s1 = Torn_down")
  case True
  have "inv_loading (drop_setters s1 (h s1))"
    by (rule inv_loading_torn_down[OF assms(2), where x = undefined])
       (simp_all add: drop_setters_fields assms True)
  with True show ?thesis by (simp add: handled_def)
next
  case False
  with assms(1,2) have "inv_loading (h s1)" by simp
  with False show ?thesis by (simp add: handled_def inv_loading_commit)
qed

lemma inv_loading_remove1:
  assumes "inv_loading s" and "lifecycle s = Torn_down"
  shows "inv_loading (s\<lparr>inflight := remove1 x (inflight s)\<rparr>)"
  by (rule inv_loading_torn_down[OF assms(1), where x = x]) (simp_all add: assms)

lemma step_inv_loading:
  assumes "step env ev s = Some s'" and "inv_loading s"
  shows "inv_loading s'"
proof (cases ev)
  case (Mount supported)
  with assms(1) have c: "lifecycle s = Created"
    and e: "s' = rerender env (geolocation_effect supported (s\<lparr>lifecycle := Mounted\<rparr>))"
    by (simp_all split: if_splits)
  from assms(2) c have "\<not> geoPending s" "userLocation s = None" "loading s"
    "filter is_passes_request (inflight s) = []"
    by (simp_all add: inv_loading_def)
  then show ?thesis unfolding e
    by (intro inv_loading_rerender) (simp_all add: geolocation_effect_def)
next
  case (GeoSuccess la lo)
  with assms(1) have g: "geoPending s"
    and e: "s' = located env (geolocation_success la lo) (s\<lparr>geoPending := False\<rparr>)"
    by (simp_all split: if_splits)
  show ?thesis unfolding e
    by (rule inv_loading_located[OF assms(2) g]) (simp_all add: geolocation_success_def)
next
  case (GeoError err)
  with assms(1) have g: "geoPending s"
    and e: "s' = located env (geolocation_error err) (s\<lparr>geoPending := False\<rparr>)"
    by (simp_all split: if_splits)
  show ?thesis unfolding e
    by (rule inv_loading_located[OF assms(2) g]) (simp_all add: geolocation_error_def)
next
  case (Tick i)
  with assms(1) have e: "s' = fetchSatelliteLocation_call s" by (simp split: if_splits)
  from assms(2) show ?thesis unfolding e
    by (simp add: inv_loading_def passes_in_flight_def fetchSatelliteLocation_call_def)
next
  case (Settle req out)
  show ?thesis
  proof (cases req)
    case (GetPasses la lo)
    let ?s1 = "s\<lparr>inflight := remove1 (GetPasses la lo) (inflight s)\<rparr>"
    from Settle GetPasses assms(1) have mem: "GetPasses la lo \<in> set (inflight s)"
      and e: "s' = handled env (fetchPasses_resume out) ?s1"
      by (simp_all split: if_splits)
    have p: "is_passes_request (GetPasses la lo)" by simp
    from assms(2) have "length (filter is_passes_request (inflight s)) \<le> 1"
      by (simp add: inv_loading_def)
    from filter_remove1_single[of is_passes_request, OF p mem this]
    have f: "filter is_passes_request (remove1 (GetPasses la lo) (inflight s)) = []" .
    from mem have "filter is_passes_request (inflight s) \<noteq> []"
      by (auto simp: filter_empty_conv intro!: bexI[where x = "GetPasses la lo"])
    with assms(2) have u: "userLocation s \<noteq> None" "\<not> geoPending s" "lifecycle s \<noteq> Created"
      by (auto simp: inv_loading_def)
    have r: "userLocation (fetchPasses_resume out ?s1) = userLocation s"
      "\<not> loading (fetchPasses_resume out ?s1)"
      by (simp_all add: fetchPasses_resume_def fetchPasses_catch_def split: outcome.splits)
    have a: "inv_loading (fetchPasses_resume out ?s1)"
      using u f r by (simp add: inv_loading_def passes_in_flight_def resume_frame)
    show ?thesis
    proof (cases "lifecycle s = Torn_down")
      case True
      have "inv_loading ?s1" using assms(2) True by (rule inv_loading_remove1)
      then have "inv_loading (drop_setters ?s1 (fetchPasses_resume out ?s1))"
        by (rule inv_loading_torn_down[where x = undefined])
           (simp_all add: drop_setters_fields resume_frame True)
      with True show ?thesis unfolding e by (simp add: handled_def)
    next
      case False
      with a show ?thesis unfolding e by (simp add: handled_def inv_loading_commit)
    qed
  next
    case GetLocationISS
    let ?s1 = "s\<lparr>inflight := remove1 GetLocationISS (inflight s)\<rparr>"
    let ?h = "fetchSatelliteLocation_resume (env_newDate env) out"
    from Settle GetLocationISS assms(1) have e: "s' = handled env ?h ?s1"
      by (simp_all split: if_splits)
    have f: "filter is_passes_request (remove1 GetLocationISS (inflight s))
              = filter is_passes_request (inflight s)"
      by (rule filter_remove1_other) simp
    from assms(2) f have i1: "inv_loading ?s1"
      by (simp add: inv_loading_def passes_in_flight_def)
    have c: "userLocation (?h ?s1) = userLocation ?s1" "loading (?h ?s1) = loading ?s1"
      by (simp_all add: fetch_defs split: outcome.splits sum.splits)
    have "inv_loading (?h ?s1)"
      by (rule inv_loading_same[OF i1]) (simp_all add: resume_frame c)
    then show ?thesis unfolding e
      by (intro inv_loading_handled i1) (simp_all add: resume_frame)
  qed
next
  case ClickRefresh
  with assms(1) have m: "lifecycle s = Mounted" and l: "\<not> loading s"
    and u: "userLocation s \<noteq> None" and e: "s' = handled env fetchPasses_call s"
    by (simp_all add: shows_loading_screen_def split: if_splits)
  from assms(2) m l u have "filter is_passes_request (inflight s) = []" "\<not> geoPending s"
    by (auto simp: inv_loading_def passes_in_flight_def)
  with m u have "inv_loading (fetchPasses_call s)"
    by (auto simp: inv_loading_def passes_in_flight_def fetch_defs Let_def)
  with m show ?thesis unfolding e by (simp add: handled_def inv_loading_commit)
next
  case Unmount
  with assms(1) have e: "s' = unmount s" by (simp split: if_splits)
  from assms(2) show ?thesis unfolding e by (rule inv_loading_unmount)
qed

lemma run_inv_loading:
  "run env evs s = Some s' \<Longrightarrow> inv_loading s \<Longrightarrow> inv_loading s'"
proof (induction evs arbitrary: s)
  case Nil
  then show ?case by simp
next
  case (Cons ev evs)
  then show ?case by (auto split: option.splits dest: step_inv_loading)
qed

lemma inv_loading_init: "inv_loading App_init"
  by (simp add: inv_loading_def App_init_def passes_in_flight_def)

subsection \<open>The fallback location\<close>

lemma settle_passes_loading:
  "GetPasses la lo \<in> set (inflight s) \<Longrightarrow> lifecycle s \<noteq> Torn_down \<Longrightarrow>
     map_option loading (step env (Settle (GetPasses la lo) out) s) = Some False"
  by (simp add: handled_def commit_fields fetchPasses_resume_def fetchPasses_catch_def Let_def
        split: outcome.splits)

lemma fallback_rerender:
  assumes "userLocation s = Some fallback_location" and "error s = Some m" and "m \<noteq> []"
  shows "userLocation (rerender env s) = Some fallback_location
         \<and> error (rerender env s) \<noteq> None \<and> error (rerender env s) \<noteq> Some []
         \<and> (lifecycle (rerender env s) = Mounted \<longrightarrow>
              loading (rerender env s) \<and> rendered_error (rerender env s) = error (rerender env s)
              \<and> GetPasses (lat fallback_location) (lng fallback_location) \<in> set (inflight (rerender env s))
              \<and> GetLocationISS \<in> set (inflight (rerender env s))
              \<and> timers (rerender env s) \<noteq> []
              \<and> map_option loading
                    (step env (Settle (GetPasses (lat fallback_location) (lng fallback_location)) out)
                       (rerender env s))
                  = Some False)
         \<and> (lifecycle (rerender env s) \<noteq> Mounted \<longrightarrow> loading (rerender env s) = loading s)"
proof (cases "lifecycle s = Mounted \<and> render env s = None")
  case True
  then have e: "rerender env s = userLocation_effects s" by (simp add: rerender_eq)
  have mem: "GetPasses (lat fallback_location) (lng fallback_location)
               \<in> set (inflight (userLocation_effects s))"
    by (simp add: effects_fields assms)
  have l: "lifecycle (userLocation_effects s) \<noteq> Torn_down"
    using True by (simp add: effects_fields)
  have "rendered_error (userLocation_effects s) = error (userLocation_effects s)"
    using assms by (simp add: rendered_error_def shows_loading_screen_def effects_fields)
  with True assms settle_passes_loading[OF mem l, of env out] show ?thesis
    unfolding e by (simp add: effects_fields effects_timers del: step.simps)
next
  case False
  then have "rerender env s = s \<or> rerender env s = unmount s"
    by (auto simp: rerender_eq)
  moreover from False have "lifecycle (rerender env s) \<noteq> Mounted"
    by (auto simp: rerender_eq unmount_fields)
  ultimately show ?thesis using assms by (auto simp: unmount_fields)
qed

subsection \<open>The position\<close>






subsection \<open>Doubles\<close>

lemma round_half_even_of_int: "round_half_even (of_int k) = k"
  by (simp add: round_half_even_def)

lemma floor_log2_bounds:
  assumes "x \<noteq> 0"
  shows "2 powr (of_int \<lfloor>log 2 \<bar>x\<bar>\<rfloor>) \<le> \<bar>x\<bar>"
    and "\<bar>x\<bar> < 2 powr (of_int \<lfloor>log 2 \<bar>x\<bar>\<rfloor> + 1)"
proof -
  from assms have p: "0 < \<bar>x\<bar>" by simp
  have "\<lfloor>log 2 \<bar>x\<bar>\<rfloor> = \<lfloor>log 2 \<bar>x\<bar>\<rfloor>" ..
  with floor_log_eq_powr_iff[OF p, of 2 "\<lfloor>log 2 \<bar>x\<bar>\<rfloor>"]
  show "2 powr (of_int \<lfloor>log 2 \<bar>x\<bar>\<rfloor>) \<le> \<bar>x\<bar>"
    and "\<bar>x\<bar> < 2 powr (of_int \<lfloor>log 2 \<bar>x\<bar>\<rfloor> + 1)"
    by simp_all
qed

lemma to_double_of_int:
  assumes "\<bar>n\<bar> \<le> 2 ^ 53"
  shows "to_double (of_int n) = of_int n"
proof (cases "n = 0")
  case True
  then show ?thesis by (simp add: to_double_def)
next
  case False
  define e where "e = \<lfloor>log 2 \<bar>real_of_int n\<bar>\<rfloor>"
  have nz: "real_of_int n \<noteq> 0" using False by simp
  from floor_log2_bounds[OF nz]
  have lo: "2 powr (of_int e) \<le> \<bar>real_of_int n\<bar>"
    and hi: "\<bar>real_of_int n\<bar> < 2 powr (of_int e + 1)"
    by (simp_all add: e_def)
  from assms have "real_of_int \<bar>n\<bar> \<le> real_of_int (2 ^ 53)" by (simp only: of_int_le_iff)
  then have "\<bar>real_of_int n\<bar> \<le> 2 powr 53" by simp
  with lo have "(2::real) powr (of_int e) \<le> 2 powr 53" by linarith
  then have "real_of_int e \<le> 53" by (simp only: powr_le_cancel_iff one_less_numeral_iff semiring_norm)
  then have e53: "e \<le> 53" by linarith
  have td: "to_double (of_int n) =
              of_int (round_half_even (of_int n / 2 powr (of_int e - 52))) * 2 powr (of_int e - 52)"
    using nz by (simp add: to_double_def e_def Let_def)
  show ?thesis
  proof (cases "e \<le> 52")
    case True
    define k where "k = nat (52 - e)"
    have ek: "real_of_int e - 52 = - real k" using True by (simp add: k_def)
    have u: "(2::real) powr (of_int e - 52) = inverse (2 ^ k)"
      unfolding ek by (simp add: powr_minus powr_realpow)
    have "real_of_int n / 2 powr (of_int e - 52) = of_int (n * 2 ^ k)"
      unfolding u by (simp add: field_simps)
    then have "round_half_even (of_int n / 2 powr (of_int e - 52)) = n * 2 ^ k"
      by (simp only: round_half_even_of_int)
    then have "to_double (of_int n) = of_int (n * 2 ^ k) * inverse (2 ^ k)"
      by (simp only: td u)
    also have "\<dots> = of_int n" by simp
    finally show ?thesis .
  next
    case False
    with e53 have e: "e = 53" by simp
    from lo e have "2 ^ 53 \<le> \<bar>real_of_int n\<bar>" by simp
    then have "real_of_int (2 ^ 53) \<le> real_of_int \<bar>n\<bar>" by simp
    then have "2 ^ 53 \<le> \<bar>n\<bar>" by (simp only: of_int_le_iff)
    with assms have "\<bar>n\<bar> = 2 ^ 53" by simp
    then have "even n" by (metis even_abs_add_iff even_add even_numeral even_power zero_less_numeral)
    then obtain m where m: "n = 2 * m" by (auto elim: evenE)
    have u: "(2::real) powr (of_int e - 52) = 2" using e by simp
    have "real_of_int n / 2 powr (of_int e - 52) = of_int m" unfolding u m by simp
    then have "round_half_even (of_int n / 2 powr (of_int e - 52)) = m"
      by (simp only: round_half_even_of_int)
    with td u m show ?thesis by simp
  qed
qed

lemma to_double_minutes: "to_double 600000 = 600000" "to_double 10 = 10"
  using to_double_of_int[of 600000] to_double_of_int[of 10] by simp_all

text \<open>Above 2^53 only the even integers are doubles: 2^53 + 1 goes to 2^53.\<close>

lemma to_double_odd: "to_double 9007199254740993 = 9007199254740992"
proof -
  have f: "\<lfloor>log 2 (9007199254740993 :: real)\<rfloor> = 53"
    by (subst floor_log_eq_powr_iff) simp_all
  have "(9007199254740993 :: real) / 2 = of_int 4503599627370496 + 1 / 2" by simp
  then have r: "round_half_even (9007199254740993 / 2) = 4503599627370496"
    unfolding round_half_even_def Let_def by (simp only:) simp
  show ?thesis
    by (simp add: to_double_def f r Let_def)
qed

lemma run_sample_tracking:
  "run sample_env
     [Mount True, GeoSuccess 1 2, Settle (GetPasses 1 2) (Resolved (JArr [sample_pass])),
      Settle GetLocationISS (Resolved sample_position)] App_init = Some sample_tracking"
  by (simp add: App_init_def fetch_defs effect_defs react_defs render_defs sample_defs
        satellite_of_def)

subsection \<open>What was rendered, and what a tick writes\<close>


lemma commit_rendered:
  "lifecycle (commit env st) = Mounted \<Longrightarrow> render env (commit env st) = None"
  by (auto simp: commit_eq unmount_fields split: if_splits)

lemma rerender_rendered:
  "lifecycle (rerender env st) = Mounted \<Longrightarrow> render env (rerender env st) = None"
  by (auto simp: rerender_eq unmount_fields render_effects split: if_splits)

lemma step_rendered:
  assumes "step env ev s = Some s'" and "lifecycle s = Mounted \<longrightarrow> render env s = None"
      and "lifecycle s' = Mounted"
  shows "render env s' = None"
proof (cases ev)
  case (Mount supported)
  with assms(1,3) show ?thesis by (auto simp: rerender_rendered split: if_splits)
next
  case (GeoSuccess la lo)
  with assms(1,3) show ?thesis
    by (auto simp: located_def rerender_rendered drop_setters_fields geolocation_success_def
             split: if_splits)
next
  case (GeoError err)
  with assms(1,3) show ?thesis
    by (auto simp: located_def rerender_rendered drop_setters_fields geolocation_error_def
             split: if_splits)
next
  case (Tick i)
  with assms(1) have e: "s' = fetchSatelliteLocation_call s" by (simp split: if_splits)
  have "render env (fetchSatelliteLocation_call s) = render env s"
    by (rule render_cells) (simp_all add: fetchSatelliteLocation_call_def)
  with assms(2,3) e show ?thesis by (simp add: call_frame)
next
  case (Settle req out)
  with assms(1,3) show ?thesis
    by (cases req)
       (auto simp: handled_def commit_rendered drop_setters_fields resume_frame Let_def
             split: if_splits)
next
  case ClickRefresh
  with assms(1,3) show ?thesis by (auto simp: handled_def commit_rendered split: if_splits)
next
  case Unmount
  with assms(1,3) show ?thesis by (auto simp: unmount_fields split: if_splits)
qed

lemma run_rendered:
  assumes "run env evs s = Some s'" and "lifecycle s = Mounted \<longrightarrow> render env s = None"
      and "lifecycle s' = Mounted"
  shows "render env s' = None"
  using assms
proof (induction evs arbitrary: s)
  case Nil
  then show ?case by simp
next
  case (Cons ev evs)
  from Cons.prems(1) obtain s1 where a: "step env ev s = Some s1"
    and b: "run env evs s1 = Some s'"
    by (auto split: option.splits)
  have "lifecycle s1 = Mounted \<longrightarrow> render env s1 = None"
    using step_rendered[OF a Cons.prems(2)] by blast
  from Cons.IH[OF b this Cons.prems(3)] show ?case .
qed

text \<open>Every mounted state that the client reaches is one that was rendered.\<close>

lemma reachable_rendered:
  assumes "run env evs App_init = Some s" and "lifecycle s = Mounted"
  shows "render env s = None"
proof -
  have "lifecycle App_init = Mounted \<longrightarrow> render env App_init = None"
    by (simp add: App_init_def)
  from run_rendered[OF assms(1) this assms(2)] show ?thesis .
qed

section \<open>The claims\<close>

subsection \<open>C1: stopping the poller\<close>

text \<open>
  C1: after the poller is stopped by unmounting the component, \<open>satelliteLocation\<close> is
  never written again, whatever happens afterwards and also when a position request that
  was in flight at that time resolves; no timer is left, and no further position
  request is issued, so the requests in flight can only become fewer.
\<close>

theorem stopped_poller_never_writes:
  assumes "run env evs App_init = Some s0"
      and "step env Unmount s0 = Some s1"
      and "run env evs' s1 = Some s2"
  shows "satelliteLocation s2 = satelliteLocation s1
         \<and> timers s2 = []
         \<and> count_list (inflight s2) GetLocationISS \<le> count_list (inflight s1) GetLocationISS"
proof -
  have "inv_timers s0" using run_inv_timers[OF assms(1) inv_timers_init] .
  with assms(2) have i: "inv_timers s1" by (rule step_inv_timers)
  from assms(2) have l: "lifecycle s1 = Torn_down"
    by (auto simp: unmount_fields split: if_splits)
  with i have t: "timers s1 = []" by (auto simp: inv_timers_def)
  from run_torn_down[OF assms(3) l] run_stopped_requests[OF assms(3) l t] t
  show ?thesis by simp
qed

theorem stopped_poller_never_writes_witness:
  "run sample_env [Mount True, GeoSuccess 1 2] App_init = Some sample_located
   \<and> step sample_env Unmount sample_located = Some sample_stopped
   \<and> GetLocationISS \<in> set (inflight sample_stopped)
   \<and> run sample_env [Settle GetLocationISS (Resolved sample_position)] sample_stopped
       = Some (sample_stopped\<lparr>inflight := [GetPasses 1 2]\<rparr>)
   \<and> satelliteLocation (sample_stopped\<lparr>inflight := [GetPasses 1 2]\<rparr>)
       = satelliteLocation sample_stopped
   \<and> timers (sample_stopped\<lparr>inflight := [GetPasses 1 2]\<rparr>) = []"
proof -
  have h1: "run sample_env [Mount True, GeoSuccess 1 2] App_init = Some sample_located"
    by (simp add: App_init_def fetch_defs effect_defs react_defs render_defs sample_located_def)
  have h2: "step sample_env Unmount sample_located = Some sample_stopped"
    by (simp add: effect_defs react_defs sample_located_def sample_stopped_def)
  have h3: "run sample_env [Settle GetLocationISS (Resolved sample_position)] sample_stopped
              = Some (sample_stopped\<lparr>inflight := [GetPasses 1 2]\<rparr>)"
    by (simp add: fetch_defs react_defs sample_located_def sample_stopped_def
          sample_position_def satellite_of_def)
  have h4: "GetLocationISS \<in> set (inflight sample_stopped)"
    by (simp add: sample_located_def sample_stopped_def)
  from stopped_poller_never_writes[OF h1 h2 h3] h1 h2 h3 h4 show ?thesis
    by blast
qed

subsection \<open>C2: the \<open>loading\<close> flag\<close>

text \<open>
  C2, as stated: \<open>loading\<close> is true exactly when the location is unresolved, and never
  becomes true again once the location is set. In the code \<open>loading\<close> belongs to the
  passes fetch: after the position fix it is still true with the location set, and a
  click on the refresh button sets it to true again.
\<close>

theorem loading_iff_unresolved_counterexample:
  "map_option loading (run sample_env [Mount True, GeoSuccess 1 2] App_init) = Some True
   \<and> map_option userLocation (run sample_env [Mount True, GeoSuccess 1 2] App_init)
       = Some (Some \<lparr> lat = 1, lng = 2 \<rparr>)
   \<and> map_option loading
        (run sample_env
           [Mount True, GeoSuccess 1 2, Settle (GetPasses 1 2) (Resolved (JArr []))] App_init)
       = Some False
   \<and> map_option loading
        (run sample_env
           [Mount True, GeoSuccess 1 2, Settle (GetPasses 1 2) (Resolved (JArr [])), ClickRefresh]
           App_init)
       = Some True"
  by (simp add: App_init_def fetch_defs effect_defs react_defs render_defs)

text \<open>
  C2, amended: in every reachable state an unresolved location implies \<open>loading\<close>, and
  until the component is torn down \<open>loading\<close> is true if and only if the location is
  unresolved or a passes request is in flight.
\<close>

theorem loading_until_passes_settle:
  assumes "run env evs App_init = Some st"
  shows "(userLocation st = None \<longrightarrow> loading st)
         \<and> (lifecycle st \<noteq> Torn_down \<longrightarrow>
              loading st = (userLocation st = None \<or> passes_in_flight st))"
  using run_inv_loading[OF assms inv_loading_init] by (simp add: inv_loading_def)

theorem loading_until_passes_settle_witness:
  "run sample_env [Mount True] App_init = Some sample_mounted
   \<and> userLocation sample_mounted = None
   \<and> lifecycle sample_mounted \<noteq> Torn_down
   \<and> loading sample_mounted
   \<and> loading sample_mounted
       = (userLocation sample_mounted = None \<or> passes_in_flight sample_mounted)"
proof -
  have h1: "run sample_env [Mount True] App_init = Some sample_mounted"
    by (simp add: App_init_def effect_defs react_defs render_defs sample_mounted_def)
  have h2: "userLocation sample_mounted = None"
    by (simp add: App_init_def sample_mounted_def)
  have h3: "lifecycle sample_mounted \<noteq> Torn_down"
    by (simp add: sample_mounted_def)
  from loading_until_passes_settle[OF h1] h1 h2 h3 show ?thesis
    by blast
qed

subsection \<open>C3: the fallback location\<close>

text \<open>
  C3, as stated: when geolocation fails, the location is the fallback coordinate,
  \<open>loading\<close> becomes false and a message is shown. Neither the error callback nor the
  branch for a browser without geolocation touches \<open>loading\<close>: after either of them
  it is still true.
\<close>

theorem geolocation_failure_loading_counterexample:
  "map_option loading
     (run sample_env [Mount True, GeoError (GeolocationPositionError 1)] App_init) = Some True
   \<and> map_option userLocation
       (run sample_env [Mount True, GeoError (GeolocationPositionError 1)] App_init)
       = Some (Some fallback_location)
   \<and> map_option loading (run sample_env [Mount False] App_init) = Some True
   \<and> map_option userLocation (run sample_env [Mount False] App_init)
       = Some (Some fallback_location)"
  by (simp add: App_init_def fetch_defs effect_defs react_defs render_defs)

text \<open>
  C3, amended: for the error callback with any error, and for a browser without
  geolocation, on a component that has not been unmounted, the location is set to the
  fallback coordinate 40.7128, -74.006 and a non-empty message is stored in \<open>error\<close> in
  the same step. On the mounted component the passes request for that coordinate and
  the first position request are issued and the timer is registered, the message is on
  the loading screen, and \<open>loading\<close> stays true until the passes request settles, with
  either outcome; the location step itself does not set \<open>loading\<close> to false.
\<close>

theorem geolocation_failure_falls_back:
  assumes "step env ev st = Some st'"
      and "ev = GeoError err \<or> ev = Mount False"
      and "lifecycle st \<noteq> Torn_down"
  shows "userLocation st' = Some \<lparr> lat = 40.7128, lng = - 74.006 \<rparr>
         \<and> error st' \<noteq> None \<and> error st' \<noteq> Some []
         \<and> (lifecycle st' = Mounted \<longrightarrow>
              loading st' \<and> rendered_error st' = error st'
              \<and> GetPasses 40.7128 (- 74.006) \<in> set (inflight st')
              \<and> GetLocationISS \<in> set (inflight st')
              \<and> timers st' \<noteq> []
              \<and> map_option loading (step env (Settle (GetPasses 40.7128 (- 74.006)) out) st')
                  = Some False)
         \<and> (lifecycle st' \<noteq> Mounted \<longrightarrow> loading st' = loading st)"
proof -
  have fb: "fallback_location = \<lparr> lat = 40.7128, lng = - 74.006 \<rparr>"
    and la: "lat fallback_location = 40.7128" and lo: "lng fallback_location = - 74.006"
    by (simp_all add: fallback_location_def)
  from assms(2) show ?thesis
  proof
    assume ev: "ev = GeoError err"
    let ?s1 = "geolocation_error err (st\<lparr>geoPending := False\<rparr>)"
    from assms(1,3) ev have e: "st' = rerender env ?s1"
      by (simp add: located_def split: if_splits)
    have u: "userLocation ?s1 = Some fallback_location"
      and m: "error ?s1 = Some ''Failed to get your location. Please enable location access.''"
      and l: "loading ?s1 = loading st"
      by (simp_all add: geolocation_error_def)
    from fallback_rerender[OF u m, of env out] l show ?thesis
      unfolding e la lo fb by (simp del: step.simps)
  next
    assume ev: "ev = Mount False"
    let ?s1 = "geolocation_effect False (st\<lparr>lifecycle := Mounted\<rparr>)"
    from assms(1) ev have e: "st' = rerender env ?s1" by (simp split: if_splits)
    have u: "userLocation ?s1 = Some fallback_location"
      and m: "error ?s1 = Some ''Geolocation is not supported by your browser''"
      and l: "loading ?s1 = loading st"
      by (simp_all add: geolocation_effect_def)
    from fallback_rerender[OF u m, of env out] l show ?thesis
      unfolding e la lo fb by (simp del: step.simps)
  qed
qed

theorem geolocation_failure_falls_back_witness:
  "step sample_env (Mount False) App_init
     = Some (App_init\<lparr> lifecycle := Mounted,
                       error := Some ''Geolocation is not supported by your browser'',
                       userLocation := Some fallback_location, loading := True,
                       inflight := [GetPasses 40.7128 (- 74.006), GetLocationISS],
                       timers := [0], nextTimer := 1, cleanup := Some 0 \<rparr>)
   \<and> (Mount False = GeoError RangeError \<or> Mount False = Mount False)
   \<and> lifecycle App_init \<noteq> Torn_down
   \<and> userLocation (the (step sample_env (Mount False) App_init))
       = Some \<lparr> lat = 40.7128, lng = - 74.006 \<rparr>
   \<and> loading (the (step sample_env (Mount False) App_init))
   \<and> map_option loading
        (step sample_env (Settle (GetPasses 40.7128 (- 74.006)) (Rejected (AxiosError ''Network Error'')))
           (the (step sample_env (Mount False) App_init))) = Some False"
proof -
  let ?st' = "App_init\<lparr> lifecycle := Mounted,
                       error := Some ''Geolocation is not supported by your browser'',
                       userLocation := Some fallback_location, loading := True,
                       inflight := [GetPasses 40.7128 (- 74.006), GetLocationISS],
                       timers := [0], nextTimer := 1, cleanup := Some 0 \<rparr>"
  have h1: "step sample_env (Mount False) App_init = Some ?st'"
    by (simp add: App_init_def fetch_defs effect_defs react_defs render_defs
          fallback_location_def)
  have h2: "Mount False = GeoError RangeError \<or> Mount False = Mount False"
    by simp
  have h3: "lifecycle App_init \<noteq> Torn_down" by (simp add: App_init_def)
  have m: "lifecycle ?st' = Mounted" by simp
  from geolocation_failure_falls_back
         [OF h1 h2 h3, of "Rejected (AxiosError ''Network Error'')"] m
  have "userLocation ?st' = Some \<lparr> lat = 40.7128, lng = - 74.006 \<rparr>" and "loading ?st'"
    and "map_option loading
           (step sample_env
              (Settle (GetPasses 40.7128 (- 74.006)) (Rejected (AxiosError ''Network Error''))) ?st')
         = Some False"
    by blast+
  with h1 h2 h3 show ?thesis by (simp del: step.simps)
qed

subsection \<open>C4: the position after failed ticks\<close>




subsection \<open>C5: a failed passes fetch\<close>

text \<open>
  C5, as stated: a passes fetch that fails by the network or by a body that cannot be
  parsed leaves \<open>passes\<close> unchanged and sets \<open>error\<close>. A request that resolves is never
  taken for a failure: after a refresh answered with text instead of a list, the list
  of the first fetch is replaced by the text and \<open>error\<close> is not set.
\<close>

theorem malformed_passes_stored_counterexample:
  "map_option passes
     (run sample_env
        [Mount True, GeoSuccess 1 2, Settle (GetPasses 1 2) (Resolved (JArr [sample_pass]))]
        App_init) = Some (JArr [sample_pass])
   \<and> map_option passes
       (run sample_env
          [Mount True, GeoSuccess 1 2, Settle (GetPasses 1 2) (Resolved (JArr [sample_pass])),
           ClickRefresh, Settle (GetPasses 1 2) (Resolved (JStr ''<html>''))]
          App_init) = Some (JStr ''<html>'')
   \<and> map_option error
       (run sample_env
          [Mount True, GeoSuccess 1 2, Settle (GetPasses 1 2) (Resolved (JArr [sample_pass])),
           ClickRefresh, Settle (GetPasses 1 2) (Resolved (JStr ''<html>''))]
          App_init) = Some None"
  by (simp add: App_init_def fetch_defs effect_defs react_defs render_defs sample_defs)

text \<open>
  C5, amended: on the mounted component, when a passes request in flight is rejected,
  the step goes through, \<open>passes\<close> is unchanged, \<open>error\<close> is the non-empty message of the
  catch block and nothing is retried: the rejected request is removed from the requests
  in flight, no request is added and no timer is registered. When the request is
  resolved, its body is stored in \<open>passes\<close> whatever it is, and \<open>error\<close> is unchanged.
\<close>

theorem rejected_pass_fetch_keeps_passes:
  assumes "GetPasses la lo \<in> set (inflight st)" and "lifecycle st = Mounted"
  shows "(\<exists>st'. step env (Settle (GetPasses la lo) (Rejected err)) st = Some st'
            \<and> passes st' = passes st
            \<and> error st' = Some ''Failed to fetch satellite passes. Please try again later.''
            \<and> error st' \<noteq> Some []
            \<and> inflight st' = remove1 (GetPasses la lo) (inflight st)
            \<and> set (timers st') \<subseteq> set (timers st))
         \<and> (\<exists>st'. step env (Settle (GetPasses la lo) (Resolved d)) st = Some st'
            \<and> passes st' = d \<and> error st' = error st)"
  using assms
  by (auto simp: handled_def commit_fields commit_eq unmount_def poller_cleanup_def
        fetchPasses_resume_def fetchPasses_catch_def Let_def split: option.splits)

theorem rejected_pass_fetch_keeps_passes_witness:
  "GetPasses 1 2 \<in> set (inflight sample_located)
   \<and> lifecycle sample_located = Mounted
   \<and> (\<exists>st'. step sample_env (Settle (GetPasses 1 2) (Rejected (AxiosError ''Network Error'')))
               sample_located = Some st'
          \<and> passes st' = passes sample_located
          \<and> error st' = Some ''Failed to fetch satellite passes. Please try again later.''
          \<and> inflight st' = remove1 (GetPasses 1 2) (inflight sample_located))
   \<and> (\<exists>st'. step sample_env (Settle (GetPasses 1 2) (Resolved (JArr [sample_pass])))
               sample_located = Some st'
          \<and> passes st' = JArr [sample_pass] \<and> error st' = error sample_located)"
proof -
  have h1: "GetPasses 1 2 \<in> set (inflight sample_located)"
    by (simp add: sample_located_def)
  have h2: "lifecycle sample_located = Mounted"
    by (simp add: sample_located_def)
  from rejected_pass_fetch_keeps_passes
         [OF h1 h2, of sample_env "AxiosError ''Network Error''" "JArr [sample_pass]"] h1 h2
  show ?thesis by blast
qed

subsection \<open>C6: a successful passes fetch\<close>

text \<open>
  C6: with the location resolved to \<open>c\<close>, the request issued by the passes fetch has
  \<open>lat = c.lat\<close> and \<open>lon = c.lng\<close>, and when the backend answers that request with
  \<open>d\<close>, \<open>passes\<close> is \<open>d\<close> itself, as returned.
\<close>

theorem pass_fetch_replaces_passes:
  assumes "userLocation st = Some c"
      and "axios_get (GetPasses (lat c) (lng c)) = Resolved d"
  shows "passes (fetchPasses axios_get st) = d
         \<and> inflight (fetchPasses_call st) = inflight st @ [GetPasses (lat c) (lng c)]
         \<and> passes (fetchPasses_resume (Resolved d) st2) = d"
  using assms by (simp add: fetch_defs)

theorem pass_fetch_replaces_passes_witness:
  "userLocation sample_located = Some \<lparr> lat = 1, lng = 2 \<rparr>
   \<and> sample_backend
        (GetPasses (lat \<lparr> lat = 1, lng = 2 \<rparr>) (lng \<lparr> lat = 1, lng = 2 \<rparr>))
       = Resolved (JArr [sample_pass])
   \<and> passes (fetchPasses sample_backend
               sample_located) = JArr [sample_pass]"
proof -
  have h1: "userLocation sample_located = Some \<lparr> lat = 1, lng = 2 \<rparr>"
    by (simp add: sample_located_def)
  have h2: "sample_backend
              (GetPasses (lat \<lparr> lat = 1, lng = 2 \<rparr>) (lng \<lparr> lat = 1, lng = 2 \<rparr>))
            = Resolved (JArr [sample_pass])"
    by simp
  from pass_fetch_replaces_passes
         [of sample_located "\<lparr> lat = 1, lng = 2 \<rparr>" sample_backend "JArr [sample_pass]", OF h1 h2]
       h1 h2
  show ?thesis
    by blast
qed

subsection \<open>C7: the duration of a pass\<close>

text \<open>
  C7: for a pass whose \<open>start_time\<close> is a valid date and whose \<open>end_time\<close> is the date
  600 seconds later, the duration shown is 10 minutes, whatever the start.
\<close>

theorem pass_duration_ten_minutes:
  assumes "get_prop pass ''start_time'' = Inr s"
      and "get_prop pass ''end_time'' = Inr e"
      and "newDate s = Some t0"
      and "newDate e = Some (t0 + 600000)"
  shows "pass_duration newDate pass = Inr (Some 10)"
  using assms by (simp add: pass_duration_def date_minus_def Math_round_def to_double_minutes)

theorem pass_duration_ten_minutes_witness:
  "get_prop sample_pass ''start_time'' = Inr (JStr ''1970-01-01T00:00:00Z'')
   \<and> get_prop sample_pass ''end_time'' = Inr (JStr ''1970-01-01T00:10:00Z'')
   \<and> sample_newDate (JStr ''1970-01-01T00:00:00Z'') = Some 0
   \<and> sample_newDate (JStr ''1970-01-01T00:10:00Z'') = Some (0 + 600000)
   \<and> pass_duration sample_newDate sample_pass = Inr (Some 10)"
proof -
  have h1: "get_prop sample_pass ''start_time'' = Inr (JStr ''1970-01-01T00:00:00Z'')"
    by (simp add: sample_pass_def)
  have h2: "get_prop sample_pass ''end_time'' = Inr (JStr ''1970-01-01T00:10:00Z'')"
    by (simp add: sample_pass_def)
  have h3: "sample_newDate (JStr ''1970-01-01T00:00:00Z'') = Some 0"
    by (simp add: sample_newDate_def)
  have h4: "sample_newDate (JStr ''1970-01-01T00:10:00Z'') = Some (0 + 600000)"
    by (simp add: sample_newDate_def)
  from pass_duration_ten_minutes[OF h1 h2 h3 h4] h1 h2 h3 h4 show ?thesis
    by blast
qed

subsection \<open>C8: what the position poll changes\<close>

text \<open>
  C8: neither half of \<open>fetchSatelliteLocation\<close> changes \<open>passes\<close>, \<open>error\<close>, \<open>loading\<close> or
  \<open>userLocation\<close>. When the request succeeds the only change is the new
  \<open>satelliteLocation\<close>; when it fails \<open>satelliteLocation\<close> is unchanged and one line is
  written to the console.
\<close>

theorem position_poll_frame:
  "passes (fetchSatelliteLocation_resume newDate out st) = passes st
   \<and> error (fetchSatelliteLocation_resume newDate out st) = error st
   \<and> loading (fetchSatelliteLocation_resume newDate out st) = loading st
   \<and> userLocation (fetchSatelliteLocation_resume newDate out st) = userLocation st
   \<and> passes (fetchSatelliteLocation_call st) = passes st
   \<and> error (fetchSatelliteLocation_call st) = error st
   \<and> loading (fetchSatelliteLocation_call st) = loading st
   \<and> userLocation (fetchSatelliteLocation_call st) = userLocation st
   \<and> satelliteLocation (fetchSatelliteLocation_call st) = satelliteLocation st
   \<and> passes (fetchSatelliteLocation newDate axios_get st) = passes st
   \<and> error (fetchSatelliteLocation newDate axios_get st) = error st
   \<and> loading (fetchSatelliteLocation newDate axios_get st) = loading st
   \<and> userLocation (fetchSatelliteLocation newDate axios_get st) = userLocation st
   \<and> (case tick_payload newDate out of
        Some sat \<Rightarrow>
          fetchSatelliteLocation_resume newDate out st = st\<lparr>satelliteLocation := Some sat\<rparr>
      | None \<Rightarrow>
          satelliteLocation (fetchSatelliteLocation_resume newDate out st) = satelliteLocation st
          \<and> length (console (fetchSatelliteLocation_resume newDate out st))
              = Suc (length (console st)))"
  by (simp add: fetch_defs tick_payload_def split: outcome.splits sum.splits)

subsection \<open>C9: the passes fetch ends the loading state\<close>

text \<open>
  C9: every invocation of the passes fetch ends with \<open>loading\<close> false, whether the
  request is resolved or rejected or building it throws; with a location set the
  loading screen is left, also when the first passes fetch after the position fix is
  rejected.
\<close>

theorem pass_fetch_ends_loading:
  "loading (fetchPasses axios_get st) = False
   \<and> loading (fetchPasses_resume out st) = False
   \<and> shows_loading_screen (fetchPasses_resume out st) = (userLocation st = None)
   \<and> map_option shows_loading_screen
       (run env [Mount True, GeoSuccess la lo, Settle (GetPasses la lo) (Rejected err)] App_init)
     = Some False"
  by (simp add: fetch_defs effect_defs react_defs render_defs App_init_def Let_def
      split: sum.splits outcome.splits option.splits)

subsection \<open>C10: the formatters do not throw\<close>

text \<open>
  C10: \<open>formatTime\<close> and \<open>formatDate\<close> return a string for every input: the text that
  \<open>format\<close> returns for the date and the pattern of the formatter when it returns, and
  \<open>Invalid time\<close> and \<open>Invalid date\<close> when it throws, as date-fns does on an Invalid
  Date.
\<close>

theorem formatters_format_or_sentinel:
  "(\<exists>r. formatTime format newDate ts = Inr r)
   \<and> (\<exists>r. formatDate format newDate ts = Inr r)
   \<and> (format (newDate ts) ''h:mm a'' = Inr s1 \<longrightarrow> formatTime format newDate ts = Inr s1)
   \<and> (format (newDate ts) ''MMM d'' = Inr s2 \<longrightarrow> formatDate format newDate ts = Inr s2)
   \<and> (format (newDate ts') ''h:mm a'' = Inl e1 \<longrightarrow>
        formatTime format newDate ts' = Inr ''Invalid time'')
   \<and> (format (newDate ts') ''MMM d'' = Inl e2 \<longrightarrow>
        formatDate format newDate ts' = Inr ''Invalid date'')"
  by (simp add: formatTime_def formatDate_def split: sum.splits)

theorem formatters_format_or_sentinel_witness:
  "sample_format (sample_newDate (JStr ''1970-01-01T00:10:00Z'')) ''h:mm a'' = Inr ''12:10 AM''
   \<and> sample_format (sample_newDate (JStr ''1970-01-01T00:10:00Z'')) ''MMM d'' = Inr ''Jan 1''
   \<and> sample_format (sample_newDate (JStr ''soon'')) ''h:mm a'' = Inl RangeError
   \<and> sample_format (sample_newDate (JStr ''soon'')) ''MMM d'' = Inl RangeError
   \<and> formatTime sample_format sample_newDate (JStr ''1970-01-01T00:10:00Z'') = Inr ''12:10 AM''
   \<and> formatDate sample_format sample_newDate (JStr ''1970-01-01T00:10:00Z'') = Inr ''Jan 1''
   \<and> formatTime sample_format sample_newDate (JStr ''soon'') = Inr ''Invalid time''
   \<and> formatDate sample_format sample_newDate (JStr ''soon'') = Inr ''Invalid date''"
proof -
  have h1: "sample_format (sample_newDate (JStr ''1970-01-01T00:10:00Z'')) ''h:mm a''
              = Inr ''12:10 AM''"
    by (simp add: sample_format_def sample_newDate_def)
  have h2: "sample_format (sample_newDate (JStr ''1970-01-01T00:10:00Z'')) ''MMM d'' = Inr ''Jan 1''"
    by (simp add: sample_format_def sample_newDate_def)
  have h3: "sample_format (sample_newDate (JStr ''soon'')) ''h:mm a'' = Inl RangeError"
    by (simp add: sample_format_def sample_newDate_def)
  have h4: "sample_format (sample_newDate (JStr ''soon'')) ''MMM d'' = Inl RangeError"
    by (simp add: sample_format_def sample_newDate_def)
  from formatters_format_or_sentinel
         [of sample_format sample_newDate "JStr ''1970-01-01T00:10:00Z''" "''12:10 AM''"
             "''Jan 1''" "JStr ''soon''" RangeError RangeError]
       h1 h2 h3 h4
  show ?thesis by blast
qed

end
